theory Spec2Isabelle
  imports Complex_Main
begin

section \<open>Exceptions and generator results\<close>

text \<open>
  The Python exceptions that the modelled code can raise. A generator that raises after
  having yielded some items is a pair: the items yielded so far, and the exception that
  ended it (\<open>None\<close> when it ran to completion).
\<close>

datatype error =
    ValueError string
  | AssertionError
  | RuntimeError string
  | TypeError string
  | KeyError string
  | AttributeError string
  | IndexError string

type_synonym 'f clips = "'f list list \<times> error option"

section \<open>The clip segmenter: \<open>Marlin._load_video\<close>\<close>

text \<open>
  A video file as \<open>_load_video\<close> sees it: the frame count that \<open>ffmpeg.probe\<close> reports
  (\<open>int(probe["streams"][0]["nb_frames"])\<close>) and the frames that decoding delivers
  (\<open>read_video\<close> in bulk, \<open>cap.read()\<close> one at a time). The two need not agree. A frame
  is a value of the type parameter \<open>'f\<close>, taken after the per-frame conversion to a
  normalised tensor; a clip is the list of its frames in the order of the time axis.
\<close>

record 'f video_file =
  nb_frames :: int
  frames :: "'f list"

text \<open>
  Modelled from the spec: \<open>padding_video(video, target, "same")\<close> of
  \<open>marlin_pytorch.util\<close>, whose source is not part of the files at hand. The spec gives
  the policy as "append copies of the final decoded frame until length matches": a video
  that already has \<open>target\<close> frames or more gets nothing appended, and an empty video has no
  final frame to repeat, which is an error here.
\<close>

definition padding_video :: "'f list \<Rightarrow> int \<Rightarrow> error + 'f list" where
  "padding_video video target =
     (if target \<le> int (length video) then Inr video
      else if video = [] then Inl (RuntimeError ''padding_video: no frame to repeat'')
      else Inr (video @ replicate (nat target - length video) (last video)))"

text \<open>\<open>video[:n]\<close>: a negative bound counts from the end.\<close>

definition slice_to :: "'f list \<Rightarrow> int \<Rightarrow> 'f list" where
  "slice_to video n =
     (if 0 \<le> n then take (nat n) video else take (length video - nat (- n)) video)"

text \<open>\<open>range(start, stop)\<close> and \<open>range(start, stop, step)\<close>; a zero step raises.\<close>

definition py_range :: "int \<Rightarrow> int \<Rightarrow> int list" where
  "py_range start stop = [start..stop - 1]"

definition py_range3 :: "int \<Rightarrow> int \<Rightarrow> int \<Rightarrow> error + int list" where
  "py_range3 start stop step =
     (if step = 0 then Inl (ValueError ''range() arg 3 must not be zero'')
      else if 0 < step then
        Inr (map (\<lambda>i. start + int i * step) [0..<nat ((stop - start + step - 1) div step)])
      else
        Inr (map (\<lambda>i. start + int i * step) [0..<nat ((start - stop - step - 1) div (- step))]))"

text \<open>
  \<open>deque(maxlen=m).append(x)\<close>: the item goes to the right end, and the deque is trimmed
  from the left to at most \<open>m\<close> items (with \<open>m = 0\<close> it stays empty).
\<close>

definition deq_append :: "nat \<Rightarrow> 'f list \<Rightarrow> 'f \<Rightarrow> 'f list" where
  "deq_append maxlen deq x = drop (Suc (length deq) - maxlen) (deq @ [x])"

text \<open>\<open>torch.stack(list(deq))\<close> raises on an empty list.\<close>

definition stack :: "'f list \<Rightarrow> error + 'f list" where
  "stack deq =
     (if deq = [] then Inl (RuntimeError ''stack expects a non-empty TensorList'')
      else Inr deq)"

text \<open>
  The \<open>while True\<close> loop of the long-video branch. The arguments are the frames the capture
  has still to deliver, \<open>current_index\<close>, \<open>last_frame\<close> and the deque; the result is the clips
  yielded, the exception that stopped the loop if any, and \<open>last_frame\<close> and the deque at
  the \<open>break\<close>. A \<open>cap.read()\<close> past the end of the stream returns \<open>(False, None)\<close> and
  raises nothing, so the \<open>sample_rate - 1\<close> skipped reads drop what is left of the stream
  and still advance \<open>current_index\<close>.
\<close>

fun read_loop ::
  "int \<Rightarrow> int \<Rightarrow> int list \<Rightarrow> 'f list \<Rightarrow> int \<Rightarrow> 'f option \<Rightarrow> 'f list
     \<Rightarrow> 'f list list \<times> error option \<times> 'f option \<times> 'f list" where
  "read_loop clip_frames sample_rate clip_end_indexes [] current_index last_frame deq =
     ([], None, last_frame, deq)"
| "read_loop clip_frames sample_rate clip_end_indexes (frame # cap) current_index last_frame deq =
     (let current_index = current_index + 1;
          last_frame = Some frame;
          deq = (if current_index = 0
                 then foldl (deq_append (nat clip_frames)) deq
                        (replicate (nat (clip_frames div 2 - 1)) frame)
                 else deq);
          cap = drop (nat (sample_rate - 1)) cap;
          current_index = current_index + int (nat (sample_rate - 1));
          deq = deq_append (nat clip_frames) deq frame
      in if current_index \<in> set clip_end_indexes then
           (case stack deq of
              Inl e \<Rightarrow> ([], Some e, last_frame, deq)
            | Inr v \<Rightarrow>
                (case read_loop clip_frames sample_rate clip_end_indexes cap
                        current_index last_frame deq of
                   (vs, r) \<Rightarrow> (v # vs, r)))
         else read_loop clip_frames sample_rate clip_end_indexes cap
                current_index last_frame deq)"

text \<open>
  The tail flush: \<open>n\<close> times, append \<open>last_frame\<close> and yield the stacked deque. When no frame
  was ever read \<open>last_frame\<close> is \<open>None\<close>, and stacking a deque that holds \<open>None\<close> raises.
\<close>

fun flush :: "nat \<Rightarrow> nat \<Rightarrow> 'f option \<Rightarrow> 'f list \<Rightarrow> 'f clips" where
  "flush maxlen 0 last_frame deq = ([], None)"
| "flush maxlen (Suc n) last_frame deq =
     (case last_frame of
        None \<Rightarrow>
          ([], Some (if maxlen = 0
                     then RuntimeError ''stack expects a non-empty TensorList''
                     else TypeError ''expected Tensor as element 0 in argument 0, but got NoneType''))
      | Some f \<Rightarrow>
          (let deq = deq_append maxlen deq f in
           case stack deq of
             Inl e \<Rightarrow> ([], Some e)
           | Inr v \<Rightarrow> (case flush maxlen n last_frame deq of (vs, e) \<Rightarrow> (v # vs, e))))"

text \<open>
  \<open>_load_video\<close>, with \<open>self.clip_frames\<close> as its first argument. The three branches are
  the short, the medium and the long video. In the medium branch the padded value is
  assigned to \<open>v\<close> and \<open>v\<close> is then assigned the slice. In the long branch the deque is
  built first (a negative \<open>maxlen\<close> raises), then the two stride-based index lists, then
  \<open>clip_end_indexes\<close> is assigned again.
\<close>

definition load_video :: "int \<Rightarrow> int \<Rightarrow> int \<Rightarrow> 'f video_file \<Rightarrow> 'f clips" where
  "load_video clip_frames sample_rate stride vf =
     (let total_frames = nb_frames vf in
      if total_frames \<le> clip_frames then
        (let video = frames vf in
         case padding_video video clip_frames of
           Inl e \<Rightarrow> ([], Some e)
         | Inr v \<Rightarrow>
             if int (length v) = clip_frames then ([v], None) else ([], Some AssertionError))
      else if total_frames \<le> clip_frames * sample_rate then
        (let video = frames vf in
         case (if int (length video) < clip_frames then padding_video video clip_frames
               else Inr video) of
           Inl e \<Rightarrow> ([], Some e)
         | Inr v \<Rightarrow> (let v = slice_to video clip_frames in ([v], None)))
      else if clip_frames < 0 then ([], Some (ValueError ''maxlen must be non-negative''))
      else
        (case py_range3 0 (total_frames - clip_frames * sample_rate) (stride * sample_rate) of
           Inl e \<Rightarrow> ([], Some e)
         | Inr clip_start_indexes \<Rightarrow>
             (let clip_end_indexes =
                    map (\<lambda>i. i + clip_frames * sample_rate - 1) clip_start_indexes;
                  clip_end_indexes =
                    py_range (clip_frames div 2) (total_frames + clip_frames div 2)
              in case read_loop clip_frames sample_rate clip_end_indexes (frames vf) (- 1) None [] of
                   (clips, Some e, last_frame, deq) \<Rightarrow> (clips, Some e)
                 | (clips, None, last_frame, deq) \<Rightarrow>
                     (case flush (nat clip_frames) (nat (clip_frames div 2)) last_frame deq of
                        (tail, e) \<Rightarrow> (clips @ tail, e)))))"

section \<open>Feature aggregation: \<open>Marlin.extract_video\<close>\<close>

text \<open>
  A feature tensor holds floating-point numbers. A number is modelled by the rational it
  stands for, and the arithmetic of the format by a rounding function \<open>rnd\<close>, a parameter:
  an operation yields the rounded exact result. Comparisons and \<open>max\<close> are exact. What
  \<open>extract_video\<close> returns is the whole batch (one row per clip) or one vector.
\<close>

datatype 'a reduced = FeatureBatch "'a list list" | FeatureVector "'a list"

text \<open>
  \<open>torch.cat(features)\<close> of the rows collected by the loop: an empty list raises, and so
  do rows of different sizes.
\<close>

definition torch_cat :: "'a list list \<Rightarrow> error + 'a list list" where
  "torch_cat features =
     (if features = [] then Inl (RuntimeError ''torch.cat(): expected a non-empty list of Tensors'')
      else if list_ex (\<lambda>row. length row \<noteq> length (hd features)) features
      then Inl (RuntimeError ''Sizes of tensors must match except in dimension 0'')
      else Inr features)"

text \<open>
  \<open>features.mean(dim=0)\<close> and \<open>features.max(dim=0)[0]\<close>, column by column. For the mean
  the rows are added in order, each sum rounded, and the total is divided by the number
  of rows and rounded.
\<close>

definition column :: "nat \<Rightarrow> 'a list list \<Rightarrow> 'a list" where
  "column j features = map (\<lambda>row. row ! j) features"

definition fl_mean :: "(rat \<Rightarrow> rat) \<Rightarrow> rat list \<Rightarrow> rat" where
  "fl_mean rnd col =
     rnd (foldl (\<lambda>acc x. rnd (acc + x)) (hd col) (tl col) / of_nat (length col))"

definition mean_dim0 :: "(rat \<Rightarrow> rat) \<Rightarrow> rat list list \<Rightarrow> rat list" where
  "mean_dim0 rnd features =
     map (\<lambda>j. fl_mean rnd (column j features)) [0..<length (hd features)]"

definition max_dim0 :: "rat list list \<Rightarrow> rat list" where
  "max_dim0 features =
     map (\<lambda>j. foldl max (hd (column j features)) (tl (column j features)))
       [0..<length (hd features)]"

text \<open>
  The end of \<open>extract_video\<close>: the concatenation and the choice of the reduction. Any
  string other than \<open>"mean"\<close> and \<open>"max"\<close> returns the batch.
\<close>

definition reduce_features ::
  "(rat \<Rightarrow> rat) \<Rightarrow> string \<Rightarrow> rat list list \<Rightarrow> error + rat reduced" where
  "reduce_features rnd reduction features =
     (case torch_cat features of
        Inl e \<Rightarrow> Inl e
      | Inr features \<Rightarrow>
          if reduction = ''mean'' then Inr (FeatureVector (mean_dim0 rnd features))
          else if reduction = ''max'' then Inr (FeatureVector (max_dim0 features))
          else Inr (FeatureBatch features))"

text \<open>
  The loop of \<open>extract_video\<close> over the clips that \<open>_load_video\<close> yields. The face crop
  (with the one-time set-up of the detector), the check of the resolution and the encoder
  are parameters: \<open>crop\<close> and \<open>extract_features\<close> may raise, \<open>shape_ok\<close> is the
  asserted condition. A clip has batch size 1, so the encoder returns one row for it.
\<close>

fun collect_features ::
  "bool \<Rightarrow> ('f list \<Rightarrow> error + 'f list) \<Rightarrow> ('f list \<Rightarrow> bool)
     \<Rightarrow> ('f list \<Rightarrow> bool \<Rightarrow> error + rat list) \<Rightarrow> bool \<Rightarrow> 'f list list
     \<Rightarrow> error + rat list list" where
  "collect_features crop_face crop shape_ok extract_features keep_seq [] = Inr []"
| "collect_features crop_face crop shape_ok extract_features keep_seq (v # clips) =
     (case (if crop_face then crop v else Inr v) of
        Inl e \<Rightarrow> Inl e
      | Inr v \<Rightarrow>
          if \<not> shape_ok v then Inl AssertionError
          else
            (case extract_features v keep_seq of
               Inl e \<Rightarrow> Inl e
             | Inr row \<Rightarrow>
                 (case collect_features crop_face crop shape_ok extract_features keep_seq clips of
                    Inl e \<Rightarrow> Inl e
                  | Inr features \<Rightarrow> Inr (row # features))))"

text \<open>
  \<open>extract_video\<close>. The clips are pulled one at a time, so an exception raised for a
  yielded clip comes before an exception that ends the generator.
\<close>

definition extract_video ::
  "(rat \<Rightarrow> rat) \<Rightarrow> ('f list \<Rightarrow> error + 'f list) \<Rightarrow> ('f list \<Rightarrow> bool)
     \<Rightarrow> ('f list \<Rightarrow> bool \<Rightarrow> error + rat list) \<Rightarrow> int \<Rightarrow> 'f video_file
     \<Rightarrow> bool \<Rightarrow> int \<Rightarrow> int \<Rightarrow> string \<Rightarrow> bool \<Rightarrow> error + rat reduced" where
  "extract_video rnd crop shape_ok extract_features clip_frames vf
       crop_face sample_rate stride reduction keep_seq =
     (case load_video clip_frames sample_rate stride vf of
        (clips, raised) \<Rightarrow>
          (case collect_features crop_face crop shape_ok extract_features keep_seq clips of
             Inl e \<Rightarrow> Inl e
           | Inr features \<Rightarrow>
               (case raised of
                  Some e \<Rightarrow> Inl e
                | None \<Rightarrow> reduce_features rnd reduction features)))"







section \<open>Checkpoints: \<open>Marlin.__init__\<close> and \<open>Marlin.from_file\<close>\<close>

text \<open>
  What \<open>torch.load\<close> returns, as far as \<open>from_file\<close> looks into it: a tensor, or a
  dictionary from names to such values. A dictionary is an association list in insertion
  order; the state mapping of a checkpoint is such a list.
\<close>

datatype 'a pyval = Tensor 'a | Dict "(string \<times> 'a pyval) list"

type_synonym 'a state_dict = "(string \<times> 'a pyval) list"

text \<open>\<open>s.startswith(p)\<close>, \<open>s.endswith(p)\<close> and \<open>s.split(sep)\<close> for a one-character \<open>sep\<close>.\<close>

fun startswith :: "string \<Rightarrow> string \<Rightarrow> bool" where
  "startswith s [] = True"
| "startswith [] (p # ps) = False"
| "startswith (c # s) (p # ps) = (c = p \<and> startswith s ps)"

definition endswith :: "string \<Rightarrow> string \<Rightarrow> bool" where
  "endswith s p = startswith (rev s) (rev p)"

fun split :: "string \<Rightarrow> char \<Rightarrow> string list" where
  "split [] sep = [[]]"
| "split (c # s) sep =
     (if c = sep then [] # split s sep
      else (let ws = split s sep in (c # hd ws) # tl ws))"

text \<open>\<open>obj.keys()\<close> needs a dictionary; \<open>obj[key]\<close> needs a dictionary that has the key.\<close>

fun as_dict :: "'a pyval \<Rightarrow> error + 'a state_dict" where
  "as_dict (Tensor t) = Inl (AttributeError ''keys'')"
| "as_dict (Dict d) = Inr d"

fun getitem :: "'a pyval \<Rightarrow> string \<Rightarrow> error + 'a pyval" where
  "getitem (Tensor t) key = Inl (IndexError key)"
| "getitem (Dict d) key = (case map_of d key of None \<Rightarrow> Inl (KeyError key) | Some v \<Rightarrow> Inr v)"

text \<open>\<open>del state_dict[key]\<close> raises when the key is not there.\<close>

definition del_item :: "'a state_dict \<Rightarrow> string \<Rightarrow> error + 'a state_dict" where
  "del_item state_dict key =
     (if key \<in> fst ` set state_dict then Inr (filter (\<lambda>kv. fst kv \<noteq> key) state_dict)
      else Inl (KeyError key))"

text \<open>\<open>for key in discriminator_keys: del state_dict[key]\<close>\<close>

fun del_keys :: "string list \<Rightarrow> 'a state_dict \<Rightarrow> error + 'a state_dict" where
  "del_keys [] state_dict = Inr state_dict"
| "del_keys (key # keys) state_dict =
     (case del_item state_dict key of
        Inl e \<Rightarrow> Inl e
      | Inr state_dict \<Rightarrow> del_keys keys state_dict)"

text \<open>
  The first part of \<open>from_file\<close>: the state mapping chosen by the extension of the path.
  \<open>torch_load\<close> stands for the file system: what \<open>torch.load(path)\<close> returns or raises. The
  \<open>"discriminator"\<close> keys are deleted inside the \<open>.ckpt\<close> branch. For a \<open>.pt\<close> file the
  loaded object is used as it is; it has to be a dictionary for the \<open>keys()\<close> call that
  follows.
\<close>

definition checkpoint_state ::
  "(string \<Rightarrow> error + 'a pyval) \<Rightarrow> string \<Rightarrow> error + 'a state_dict" where
  "checkpoint_state torch_load path =
     (if endswith path ''.pt'' then
        (case torch_load path of
           Inl e \<Rightarrow> Inl e
         | Inr state_dict \<Rightarrow> as_dict state_dict)
      else if endswith path ''.ckpt'' then
        (case torch_load path of
           Inl e \<Rightarrow> Inl e
         | Inr obj \<Rightarrow>
             (case getitem obj ''state_dict'' of
                Inl e \<Rightarrow> Inl e
              | Inr obj \<Rightarrow>
                  (case as_dict obj of
                     Inl e \<Rightarrow> Inl e
                   | Inr state_dict \<Rightarrow>
                       (let discriminator_keys =
                              filter (\<lambda>k. startswith k ''discriminator'') (map fst state_dict)
                        in del_keys discriminator_keys state_dict))))
      else Inl (ValueError (''Unsupported file type: '' @ last (split path CHR ''.''))))"

text \<open>
  The \<open>for\<close> ... \<open>else\<close> loop over the keys: the result is the value of
  \<open>as_feature_extractor\<close>, \<open>False\<close> at the first key that starts with \<open>"decoder."\<close> and
  \<open>True\<close> when the loop runs out.
\<close>

fun scan_keys :: "string list \<Rightarrow> bool" where
  "scan_keys [] = True"
| "scan_keys (key # keys) = (if startswith key ''decoder.'' then False else scan_keys keys)"

text \<open>
  The model object. The encoder, the decoder and the projection are the constructor calls
  of \<open>__init__\<close> with their arguments in the order of the source; the networks behind them
  are not looked into. \<open>parameters\<close> is \<open>None\<close> for the freshly initialised weights and holds
  the state mapping once \<open>load_state_dict\<close> has copied it in. The float arguments are only
  passed along.
\<close>

datatype encoder =
  MarlinEncoder int int int int int int real bool "real option" real real string real int

datatype decoder =
  MarlinDecoder int int int int int real bool "real option" real real string real int

datatype linear = Linear int int bool

record 'a marlin =
  ffmpeg_dir :: "string option"
  encoder :: encoder
  as_feature_extractor :: bool
  clip_frames :: int
  enc_dec_proj :: "linear option"
  decoder :: "decoder option"
  parameters :: "'a state_dict option"

definition Marlin_init ::
  "int \<Rightarrow> int \<Rightarrow> int \<Rightarrow> int \<Rightarrow> int \<Rightarrow> int \<Rightarrow> int \<Rightarrow> int \<Rightarrow> int \<Rightarrow> real \<Rightarrow> bool \<Rightarrow> real option
     \<Rightarrow> real \<Rightarrow> real \<Rightarrow> string \<Rightarrow> real \<Rightarrow> int \<Rightarrow> bool \<Rightarrow> string option \<Rightarrow> 'a marlin" where
  "Marlin_init img_size patch_size n_frames encoder_embed_dim encoder_depth encoder_num_heads
       decoder_embed_dim decoder_depth decoder_num_heads mlp_ratio qkv_bias qk_scale
       drop_rate attn_drop_rate norm_layer init_values tubelet_size
       as_feature_extractor' ffmpeg_dir' =
     \<lparr>ffmpeg_dir = ffmpeg_dir',
      encoder = MarlinEncoder img_size patch_size n_frames encoder_embed_dim encoder_depth
                  encoder_num_heads mlp_ratio qkv_bias qk_scale drop_rate attn_drop_rate
                  norm_layer init_values tubelet_size,
      as_feature_extractor = as_feature_extractor',
      clip_frames = n_frames,
      enc_dec_proj =
        (if as_feature_extractor' then None
         else Some (Linear encoder_embed_dim decoder_embed_dim False)),
      decoder =
        (if as_feature_extractor' then None
         else Some (MarlinDecoder img_size patch_size decoder_embed_dim decoder_depth
                      decoder_num_heads mlp_ratio qkv_bias qk_scale drop_rate attn_drop_rate
                      norm_layer init_values tubelet_size)),
      parameters = None\<rparr>"

text \<open>
  \<open>model.load_state_dict(state_dict)\<close> of \<open>torch.nn.Module\<close>: the strict comparison of the
  names and shapes with those of the module is the parameter \<open>strict_ok\<close>; when it fails
  the call raises, otherwise the values are copied into the module.
\<close>

definition load_state_dict ::
  "('a marlin \<Rightarrow> 'a state_dict \<Rightarrow> bool) \<Rightarrow> 'a marlin \<Rightarrow> 'a state_dict \<Rightarrow> error + 'a marlin" where
  "load_state_dict strict_ok model state_dict =
     (if strict_ok model state_dict then Inr (model\<lparr>parameters := Some state_dict\<rparr>)
      else Inl (RuntimeError ''Error(s) in loading state_dict for Marlin''))"

text \<open>The configuration that \<open>resolve_config(model_name)\<close> returns.\<close>

record config =
  img_size :: int
  patch_size :: int
  n_frames :: int
  encoder_embed_dim :: int
  encoder_depth :: int
  encoder_num_heads :: int
  decoder_embed_dim :: int
  decoder_depth :: int
  decoder_num_heads :: int
  mlp_ratio :: real
  qkv_bias :: bool
  qk_scale :: "real option"
  drop_rate :: real
  attn_drop_rate :: real
  norm_layer :: string
  init_values :: real
  tubelet_size :: int

text \<open>
  \<open>from_file\<close>. \<open>resolve_config\<close> is the registry of model names of
  \<open>marlin_pytorch.config\<close>, a parameter here. The constructor is called without
  \<open>ffmpeg_dir\<close>, which defaults to \<open>None\<close>.
\<close>

definition from_file ::
  "(string \<Rightarrow> error + 'a pyval) \<Rightarrow> (string \<Rightarrow> error + config)
     \<Rightarrow> ('a marlin \<Rightarrow> 'a state_dict \<Rightarrow> bool) \<Rightarrow> string \<Rightarrow> string \<Rightarrow> error + 'a marlin" where
  "from_file torch_load resolve_config strict_ok model_name path =
     (case checkpoint_state torch_load path of
        Inl e \<Rightarrow> Inl e
      | Inr state_dict \<Rightarrow>
          (let as_feature_extractor' = scan_keys (map fst state_dict) in
           case resolve_config model_name of
             Inl e \<Rightarrow> Inl e
           | Inr config \<Rightarrow>
               (let model =
                      Marlin_init (img_size config) (patch_size config) (n_frames config)
                        (encoder_embed_dim config) (encoder_depth config)
                        (encoder_num_heads config) (decoder_embed_dim config)
                        (decoder_depth config) (decoder_num_heads config) (mlp_ratio config)
                        (qkv_bias config) (qk_scale config) (drop_rate config)
                        (attn_drop_rate config) (norm_layer config) (init_values config)
                        (tubelet_size config) as_feature_extractor' None
                in load_state_dict strict_ok model state_dict)))"

text \<open>
  The medium branch as a specification: yield \<open>video[:clip_length]\<close> of the frames
  decoded in bulk, and nothing else.
\<close>

definition yield_first_frames :: "'f list \<Rightarrow> int \<Rightarrow> 'f clips" where
  "yield_first_frames video clip_length = ([slice_to video clip_length], None)"

section \<open>Example inputs\<close>

text \<open>
  A file system with one file, a registry with one model name and its configuration, a
  strict check that accepts a state mapping with exactly the given names, and a
  checkpoint in the nested layout.
\<close>

definition single_file :: "string \<Rightarrow> 'a pyval \<Rightarrow> string \<Rightarrow> error + 'a pyval" where
  "single_file name obj path =
     (if path = name then Inr obj else Inl (RuntimeError ''No such file or directory''))"

definition marlin_vit_base :: config where
  "marlin_vit_base =
     \<lparr>img_size = 224, patch_size = 16, n_frames = 16, encoder_embed_dim = 768,
      encoder_depth = 12, encoder_num_heads = 12, decoder_embed_dim = 384,
      decoder_depth = 4, decoder_num_heads = 6, mlp_ratio = 4, qkv_bias = True,
      qk_scale = None, drop_rate = 0, attn_drop_rate = 0, norm_layer = ''LayerNorm'',
      init_values = 0, tubelet_size = 2\<rparr>"

definition registry :: "string \<Rightarrow> error + config" where
  "registry model_name =
     (if model_name = ''marlin_vit_base_ytf'' then Inr marlin_vit_base
      else Inl (ValueError model_name))"

definition same_keys :: "string list \<Rightarrow> 'a marlin \<Rightarrow> 'a state_dict \<Rightarrow> bool" where
  "same_keys names model state_dict = (set (map fst state_dict) = set names)"

definition lightning_ckpt :: "nat pyval" where
  "lightning_ckpt =
     Dict [(''epoch'', Tensor 7),
           (''state_dict'',
            Dict [(''encoder.x'', Tensor 1), (''discriminator.y'', Tensor 2),
                  (''decoder.z'', Tensor 3)])]"

section \<open>The short and the medium video\<close>

lemma padding_video_short:
  assumes "fs \<noteq> []" "int (length fs) \<le> cf"
  shows "padding_video fs cf = Inr (fs @ replicate (nat cf - length fs) (last fs))"
  using assms by (auto simp: padding_video_def)

lemma load_video_short:
  assumes "nb_frames vf \<le> cf" "frames vf \<noteq> []" "int (length (frames vf)) \<le> cf"
  shows "load_video cf sr st vf =
           ([frames vf @ replicate (nat cf - length (frames vf)) (last (frames vf))], None)"
proof -
  have "int (length (frames vf @ replicate (nat cf - length (frames vf)) (last (frames vf)))) = cf"
    using assms(3) by simp
  then show ?thesis
    using assms by (simp add: load_video_def padding_video_short Let_def del: length_append length_replicate)
qed

lemma load_video_medium:
  assumes "cf < nb_frames vf" "nb_frames vf \<le> cf * sr" "frames vf \<noteq> []"
  shows "load_video cf sr st vf = ([slice_to (frames vf) cf], None)"
  using assms by (simp add: load_video_def padding_video_def Let_def)

text \<open>
  C3. A video of at most \<open>clip_length\<close> frames (and at least one), decoded in full,
  yields exactly one clip of \<open>clip_length\<close> frames: the decoded frames in order, then
  copies of the last decoded frame.
\<close>

theorem C3_short_video_padded:
  assumes "0 < tf" "tf \<le> cf" "int (length fs) = tf"
  shows "\<exists>clip. load_video cf sr st \<lparr>nb_frames = tf, frames = fs\<rparr> = ([clip], None)
           \<and> int (length clip) = cf
           \<and> take (nat tf) clip = fs
           \<and> (\<forall>i. nat tf \<le> i \<and> i < nat cf \<longrightarrow> clip ! i = last fs)"
proof -
  let ?clip = "fs @ replicate (nat cf - length fs) (last fs)"
  have ne: "fs \<noteq> []" using assms by auto
  have "load_video cf sr st \<lparr>nb_frames = tf, frames = fs\<rparr> = ([?clip], None)"
    using load_video_short[of "\<lparr>nb_frames = tf, frames = fs\<rparr>" cf sr st] assms ne by simp
  moreover have "int (length ?clip) = cf" using assms by simp
  moreover have "take (nat tf) ?clip = fs" using assms by auto
  moreover have "\<forall>i. nat tf \<le> i \<and> i < nat cf \<longrightarrow> ?clip ! i = last fs"
    using assms by (auto simp: nth_append)
  ultimately show ?thesis by blast
qed

text \<open>
  The scenario of the spec: 10 frames, clips of 16, the last frame repeated 6 times.
\<close>

theorem C3_short_video_padded_witness:
  "load_video 16 2 16 \<lparr>nb_frames = 10, frames = [0..<10]\<rparr>
     = ([[0, 1, 2, 3, 4, 5, 6, 7, 8, 9, 9, 9, 9, 9, 9, 9]], None)"
proof -
  have a: "(0::int) < 10" "(10::int) \<le> 16" "int (length [0..<10]) = 10" by simp_all
  from C3_short_video_padded[OF a, of 2 16] obtain clip where
    "load_video 16 2 16 \<lparr>nb_frames = 10, frames = [0..<10]\<rparr> = ([clip], None)"
    by blast
  moreover have "fst (load_video 16 2 16 \<lparr>nb_frames = 10, frames = [0..<10]\<rparr>)
                   = [[0, 1, 2, 3, 4, 5, 6, 7, 8, 9, 9, 9, 9, 9, 9, 9]]"
    by code_simp
  ultimately show ?thesis by simp
qed

text \<open>
  C4. In the medium regime, when decoding delivers at least \<open>clip_length\<close> frames, exactly
  one clip is yielded: the first \<open>clip_length\<close> decoded frames, whatever the sample rate.
\<close>

theorem C4_medium_video_first_frames:
  assumes "0 < cf" "cf < tf" "tf \<le> cf * sr" "cf \<le> int (length fs)"
  shows "load_video cf sr st \<lparr>nb_frames = tf, frames = fs\<rparr> = ([take (nat cf) fs], None)"
proof -
  have "fs \<noteq> []" using assms by auto
  then show ?thesis
    using load_video_medium[of cf "\<lparr>nb_frames = tf, frames = fs\<rparr>" sr st] assms
    by (simp add: slice_to_def)
qed

theorem C4_medium_video_first_frames_witness:
  "load_video 16 2 16 \<lparr>nb_frames = 20, frames = [0..<20]\<rparr> = ([[0..<16]], None)"
proof -
  have a: "(0::int) < 16" "(16::int) < 20" "(20::int) \<le> 16 * 2" "16 \<le> int (length [0..<20])"
    by simp_all
  from C4_medium_video_first_frames[OF a, of 16] show ?thesis by simp
qed

text \<open>
  C10, as stated: in the medium regime the branch is the same as yielding
  \<open>video[:clip_length]\<close>. When no frame is decoded the padding call, whose value is never
  used, still raises, and no clip is yielded.
\<close>

theorem C10_empty_decode_counterexample:
  "load_video 16 2 16 \<lparr>nb_frames = 20, frames = ([] :: nat list)\<rparr>
     = ([], Some (RuntimeError ''padding_video: no frame to repeat''))
   \<and> yield_first_frames ([] :: nat list) 16 = ([[]], None)"
  by code_simp

text \<open>
  C10, amended: in the medium regime, for a decoder that delivers at least one frame, the
  branch is the same as yielding \<open>video[:clip_length]\<close>: the padded value is never used,
  and when fewer than \<open>clip_length\<close> frames are decoded the clip is just the decoded
  frames.
\<close>

theorem C10_medium_padding_dead:
  assumes "cf < nb_frames vf" "nb_frames vf \<le> cf * sr" "frames vf \<noteq> []"
  shows "load_video cf sr st vf = yield_first_frames (frames vf) cf
         \<and> (int (length (frames vf)) < cf \<longrightarrow> load_video cf sr st vf = ([frames vf], None))"
  using load_video_medium[OF assms, of st]
  by (auto simp: yield_first_frames_def slice_to_def)

theorem C10_medium_padding_dead_witness:
  "load_video 16 2 16 \<lparr>nb_frames = 20, frames = [0..<12]\<rparr> = ([[0..<12]], None)"
proof -
  have a: "16 < nb_frames \<lparr>nb_frames = 20, frames = [0..<12]\<rparr>"
    "nb_frames \<lparr>nb_frames = 20, frames = [0..<12]\<rparr> \<le> 16 * 2"
    "frames \<lparr>nb_frames = 20, frames = [0..<12]\<rparr> \<noteq> []"
    by simp_all
  have "int (length (frames \<lparr>nb_frames = 20, frames = [0..<12]\<rparr>)) < 16 \<longrightarrow>
          load_video 16 2 16 \<lparr>nb_frames = 20, frames = [0..<12]\<rparr>
            = ([frames \<lparr>nb_frames = 20, frames = [0..<12]\<rparr>], None)"
    using C10_medium_padding_dead[OF a, of 16] by (rule conjunct2)
  then show ?thesis by simp
qed

section \<open>The long video\<close>

text \<open>
  C1. Every yielded clip should have \<open>clip_length\<close> frames. With the defaults (clips of
  16, sample rate 2) and a video of 34 frames, the first four clips have 12, 13, 14 and 15
  frames: \<open>current_index\<close> also counts the skipped reads, so the first match comes at the
  fifth kept frame, when the deque holds the 7 copies of frame 0 and 5 frames.
\<close>

theorem C1_long_regime_short_clip:
  "map length (fst (load_video 16 2 16 \<lparr>nb_frames = 34, frames = [0..<34]\<rparr>))
     = [12, 13, 14, 15] @ replicate 17 16
   \<and> hd (fst (load_video 16 2 16 \<lparr>nb_frames = 34, frames = [0..<34]\<rparr>))
     = [0, 0, 0, 0, 0, 0, 0, 0, 2, 4, 6, 8]"
  by code_simp

lemma length_deq_append: "length (deq_append m d x) = min (Suc (length d)) m"
  by (simp add: deq_append_def)

lemma deq_append_not_Nil: "0 < m \<Longrightarrow> deq_append m d x \<noteq> []"
proof -
  assume "0 < m"
  then have "0 < length (deq_append m d x)" by (simp add: length_deq_append)
  then show ?thesis by auto
qed

lemma stack_deq_append: "0 < m \<Longrightarrow> stack (deq_append m d x) = Inr (deq_append m d x)"
  by (simp add: stack_def deq_append_not_Nil)

lemma read_loop_sr1:
  assumes "0 < cf"
  shows "\<exists>vs deq'. read_loop cf 1 ends cap idx lf deq
            = (vs, None, (if cap = [] then lf else Some (last cap)), deq')
          \<and> length vs = length (filter (\<lambda>j. j \<in> set ends) [idx + 1..idx + int (length cap)])"
proof (induction cap arbitrary: idx lf deq)
  case Nil
  show ?case by simp
next
  case (Cons frame cap)
  define d0 where "d0 = (if idx + 1 = 0
                 then foldl (deq_append (nat cf)) deq (replicate (nat (cf div 2 - 1)) frame)
                 else deq)"
  define d1 where "d1 = deq_append (nat cf) d0 frame"
  have st: "stack d1 = Inr d1" unfolding d1_def using assms by (simp add: stack_deq_append)
  from Cons.IH[of "idx + 1" "Some frame" d1] obtain vs deq' where
    rl: "read_loop cf 1 ends cap (idx + 1) (Some frame) d1
           = (vs, None, (if cap = [] then Some frame else Some (last cap)), deq')"
    and len: "length vs = length (filter (\<lambda>j. j \<in> set ends) [idx + 1 + 1..idx + 1 + int (length cap)])"
    by blast
  have e: "idx + int (length (frame # cap)) = idx + 1 + int (length cap)" by simp
  have "idx + 1 \<le> idx + 1 + int (length cap)" by simp
  then have "[idx + 1..idx + 1 + int (length cap)]
               = (idx + 1) # [idx + 1 + 1..idx + 1 + int (length cap)]"
    by (rule upto_rec1)
  then have up: "[idx + 1..idx + int (length (frame # cap))]
              = (idx + 1) # [idx + 1 + 1..idx + 1 + int (length cap)]"
    unfolding e .
  have step: "read_loop cf 1 ends (frame # cap) idx lf deq =
      (if idx + 1 \<in> set ends then
         (case read_loop cf 1 ends cap (idx + 1) (Some frame) d1 of (vs, r) \<Rightarrow> (d1 # vs, r))
       else read_loop cf 1 ends cap (idx + 1) (Some frame) d1)"
    using st by (simp add: Let_def d1_def d0_def)
  show ?case
  proof (cases "idx + 1 \<in> set ends")
    case True
    have "read_loop cf 1 ends (frame # cap) idx lf deq
            = (d1 # vs, None, (if frame # cap = [] then lf else Some (last (frame # cap))), deq')"
      using step True rl by simp
    moreover have "length (d1 # vs)
        = length (filter (\<lambda>j. j \<in> set ends) [idx + 1..idx + int (length (frame # cap))])"
      unfolding up using True len by simp
    ultimately show ?thesis by blast
  next
    case False
    have "read_loop cf 1 ends (frame # cap) idx lf deq
            = (vs, None, (if frame # cap = [] then lf else Some (last (frame # cap))), deq')"
      using step False rl by simp
    moreover have "length vs
        = length (filter (\<lambda>j. j \<in> set ends) [idx + 1..idx + int (length (frame # cap))])"
      unfolding up using False len by simp
    ultimately show ?thesis by blast
  qed
qed

lemma flush_Some:
  assumes "0 < m"
  shows "\<exists>tail. flush m n (Some f) deq = (tail, None) \<and> length tail = n"
proof (induction n arbitrary: deq)
  case 0
  show ?case by simp
next
  case (Suc n)
  from Suc.IH[of "deq_append m deq f"] obtain tail where
    "flush m n (Some f) (deq_append m deq f) = (tail, None)" "length tail = n" by blast
  then show ?case using assms by (simp add: stack_deq_append)
qed

lemma count_matches:
  assumes "0 \<le> h" "h \<le> t"
  shows "length (filter (\<lambda>j. j \<in> set (py_range h (t + h))) [- 1 + 1..- 1 + t]) = nat (t - h)"
proof -
  have "length (filter (\<lambda>j. j \<in> set (py_range h (t + h))) [- 1 + 1..- 1 + t])
          = card ({j. j \<in> set (py_range h (t + h))} \<inter> set [- 1 + 1..- 1 + t])"
    by (rule distinct_length_filter) simp
  also have "{j. j \<in> set (py_range h (t + h))} \<inter> set [- 1 + 1..- 1 + t] = {h..t - 1}"
    using assms by (auto simp: py_range_def)
  also have "card {h..t - 1} = nat (t - h)" by simp
  finally show ?thesis .
qed

lemma py_range3_nonzero: "step \<noteq> 0 \<Longrightarrow> \<exists>xs. py_range3 a b step = Inr xs"
  by (simp add: py_range3_def)

lemma load_video_long:
  assumes "cf < nb_frames vf" "cf * sr < nb_frames vf" "0 \<le> cf" "st * sr \<noteq> 0"
    and "read_loop cf sr (py_range (cf div 2) (nb_frames vf + cf div 2)) (frames vf) (- 1) None []
           = (streamed, None, lf, deq)"
    and "flush (nat cf) (nat (cf div 2)) lf deq = (tail, e)"
  shows "load_video cf sr st vf = (streamed @ tail, e)"
proof -
  obtain xs where "py_range3 0 (nb_frames vf - cf * sr) (st * sr) = Inr xs"
    using py_range3_nonzero[OF assms(4)] by blast
  then show ?thesis using assms by (simp add: load_video_def Let_def)
qed

text \<open>
  C2, as stated: the number of clips is \<open>total_frames\<close> matches plus \<open>clip_length // 2\<close>.
  A video of 17 frames read at sample rate 1 with clips of 16 yields 17 clips, not 25.
\<close>

theorem C2_clip_count_counterexample:
  "length (fst (load_video 16 1 16 \<lparr>nb_frames = 17, frames = [0..<17]\<rparr>)) = 17
   \<and> length (fst (load_video 16 1 16 \<lparr>nb_frames = 17, frames = [0..<17]\<rparr>)) \<noteq> 17 + 16 div 2"
  by code_simp

text \<open>
  C2, amended: at sample rate 1, for a video of more than \<open>clip_length\<close> frames decoded in
  full, the loop yields \<open>total_frames - clip_length // 2\<close> clips (the matches of the index
  against the emission set), the tail flush yields \<open>clip_length // 2\<close> more, and nothing
  raises: \<open>total_frames\<close> clips in all.
\<close>

theorem C2_clip_count_sample_rate_1:
  assumes "0 < cf" "0 < st" "cf < tf" "int (length fs) = tf"
  shows "\<exists>streamed last_frame deq tail.
           read_loop cf 1 (py_range (cf div 2) (tf + cf div 2)) fs (- 1) None []
             = (streamed, None, last_frame, deq)
         \<and> flush (nat cf) (nat (cf div 2)) last_frame deq = (tail, None)
         \<and> load_video cf 1 st \<lparr>nb_frames = tf, frames = fs\<rparr> = (streamed @ tail, None)
         \<and> length streamed = nat (tf - cf div 2)
         \<and> length tail = nat (cf div 2)
         \<and> length (streamed @ tail) = nat tf"
proof -
  let ?ends = "py_range (cf div 2) (tf + cf div 2)"
  have ne: "fs \<noteq> []" using assms by auto
  from read_loop_sr1[OF assms(1), of ?ends fs "- 1" None "[]"] ne obtain streamed deq where
    rl: "read_loop cf 1 ?ends fs (- 1) None [] = (streamed, None, Some (last fs), deq)"
    and len: "length streamed = length (filter (\<lambda>j. j \<in> set ?ends) [- 1 + 1..- 1 + int (length fs)])"
    by auto
  have h: "0 \<le> cf div 2" "cf div 2 \<le> tf" using assms by auto
  have ls: "length streamed = nat (tf - cf div 2)"
    using len count_matches[OF h] assms(4) by simp
  from flush_Some[of "nat cf" "nat (cf div 2)" "last fs" deq] assms(1) obtain tail where
    fl: "flush (nat cf) (nat (cf div 2)) (Some (last fs)) deq = (tail, None)"
    and lt: "length tail = nat (cf div 2)"
    by auto
  have lv: "load_video cf 1 st \<lparr>nb_frames = tf, frames = fs\<rparr> = (streamed @ tail, None)"
    using load_video_long[of cf "\<lparr>nb_frames = tf, frames = fs\<rparr>" 1 st streamed "Some (last fs)" deq tail None]
      assms rl fl by simp
  have "nat (tf - cf div 2) + nat (cf div 2) = nat tf" using h by linarith
  then have tot: "length (streamed @ tail) = nat tf" using ls lt by simp
  show ?thesis using rl fl lv ls lt tot by blast
qed

theorem C2_clip_count_witness:
  "load_video 16 1 16 \<lparr>nb_frames = 17, frames = [0..<17]\<rparr>
     = (fst (read_loop 16 1 (py_range 8 25) [0..<17] (- 1) None [])
          @ fst (flush 16 8 (Some 16) [1..<17]), None)
   \<and> length (fst (read_loop 16 1 (py_range 8 25) [0..<17] (- 1) None [])) = 9
   \<and> length (fst (flush 16 8 (Some 16) [1..<17])) = 8"
proof -
  have a: "(0::int) < 16" "(0::int) < 16" "(16::int) < 17" "int (length [0..<17]) = 17" by simp_all
  from C2_clip_count_sample_rate_1[OF a] obtain streamed last_frame deq tail where
      rl: "read_loop 16 1 (py_range (16 div 2) (17 + 16 div 2)) [0..<17] (- 1) None []
             = (streamed, None, last_frame, deq)"
    and fl: "flush (nat 16) (nat (16 div 2)) last_frame deq = (tail, None)"
    and lv: "load_video 16 1 16 \<lparr>nb_frames = 17, frames = [0..<17]\<rparr> = (streamed @ tail, None)"
    and ls: "length streamed = nat (17 - 16 div 2)"
    and lt: "length tail = nat (16 div 2)"
    by blast
  have ev: "read_loop 16 1 (py_range 8 25) [0..<17] (- 1) None []
              = (streamed, None, Some 16, [1..<17])"
  proof -
    have "snd (snd (read_loop 16 1 (py_range 8 25) [0..<17] (- 1) None [])) = (Some 16, [1..<17])"
      by code_simp
    then show ?thesis using rl by simp
  qed
  have "last_frame = Some 16" "deq = [1..<17]" using rl ev by simp_all
  then show ?thesis using rl fl lv ls lt by simp
qed

text \<open>
  C7. In the long regime two positive strides give the same clips: the stride only enters
  the step of a \<open>range\<close> whose result is overwritten.
\<close>

theorem C7_stride_no_effect:
  assumes "0 < s1" "0 < s2" "cf * sr < nb_frames vf"
  shows "load_video cf sr s1 vf = load_video cf sr s2 vf"
proof (cases "sr = 0")
  case True
  then show ?thesis by (simp add: load_video_def py_range3_def Let_def)
next
  case False
  then have "s1 * sr \<noteq> 0" "s2 * sr \<noteq> 0" using assms by auto
  then show ?thesis by (simp add: load_video_def py_range3_def Let_def)
qed

theorem C7_stride_no_effect_witness:
  "load_video 16 2 1 \<lparr>nb_frames = 34, frames = [0..<34]\<rparr>
     = load_video 16 2 16 \<lparr>nb_frames = 34, frames = [0..<34]\<rparr>"
proof -
  have a: "(0::int) < 1" "(0::int) < 16"
    "16 * 2 < nb_frames \<lparr>nb_frames = 34, frames = [0..<34]\<rparr>"
    by simp_all
  show ?thesis by (rule C7_stride_no_effect[OF a])
qed

section \<open>Checkpoints\<close>

lemma startswith_iff: "startswith s p \<longleftrightarrow> (\<exists>t. s = p @ t)"
  by (induction s p rule: startswith.induct) auto

lemma endswith_iff: "endswith s p \<longleftrightarrow> (\<exists>t. s = t @ p)"
proof -
  have "endswith s p \<longleftrightarrow> (\<exists>t. rev s = rev p @ t)"
    by (simp add: endswith_def startswith_iff)
  also have "\<dots> \<longleftrightarrow> (\<exists>t. s = t @ p)"
  proof
    assume "\<exists>t. rev s = rev p @ t"
    then obtain t where "rev s = rev p @ t" ..
    then have "s = rev t @ p" by (metis rev_append rev_rev_ident)
    then show "\<exists>t. s = t @ p" ..
  next
    assume "\<exists>t. s = t @ p"
    then obtain t where "s = t @ p" ..
    then have "rev s = rev p @ rev t" by simp
    then show "\<exists>t. rev s = rev p @ t" ..
  qed
  finally show ?thesis .
qed

lemma split_not_Nil: "split s sep \<noteq> []"
  by (induction s) (auto simp: Let_def)

lemma split_last:
  "sep \<notin> set (last (split s sep)) \<and>
   (s = last (split s sep) \<and> split s sep = [s]
    \<or> (\<exists>stem. s = stem @ sep # last (split s sep)) \<and> tl (split s sep) \<noteq> [])"
proof (induction s)
  case Nil
  then show ?case by simp
next
  case (Cons c s)
  show ?case
  proof (cases "c = sep")
    case True
    have "last (split (c # s) sep) = last (split s sep)"
      using True split_not_Nil[of s sep] by simp
    moreover have "tl (split (c # s) sep) \<noteq> []"
      using True split_not_Nil[of s sep] by simp
    moreover have "\<exists>stem. c # s = stem @ sep # last (split s sep)"
    proof -
      from Cons.IH consider "s = last (split s sep)" | stem where "s = stem @ sep # last (split s sep)"
        by blast
      then show ?thesis
      proof cases
        case 1
        then have "c # s = [] @ sep # last (split s sep)" using True by simp
        then show ?thesis by blast
      next
        case 2
        then have "c # s = (c # stem) @ sep # last (split s sep)" by simp
        then show ?thesis by blast
      qed
    qed
    ultimately show ?thesis using Cons.IH by simp
  next
    case False
    from Cons.IH consider
        (one) "s = last (split s sep)" "split s sep = [s]" "sep \<notin> set (last (split s sep))"
      | (more) stem where "s = stem @ sep # last (split s sep)" "tl (split s sep) \<noteq> []"
          "sep \<notin> set (last (split s sep))"
      by blast
    then show ?thesis
    proof cases
      case one
      then show ?thesis using False by (simp add: Let_def)
    next
      case more
      have l: "last (split (c # s) sep) = last (split s sep)"
        using False more(2) split_not_Nil[of s sep]
        by (cases "split s sep") (auto simp: Let_def)
      have t: "tl (split (c # s) sep) \<noteq> []"
        using False more(2) by (simp add: Let_def)
      have "c # s = (c # stem) @ sep # last (split s sep)" using more(1) by simp
      then have "\<exists>stem. c # s = stem @ sep # last (split (c # s) sep)" using l by metis
      then show ?thesis using l t more(3) by simp
    qed
  qed
qed

lemma from_file_unsupported:
  assumes "\<not> endswith path ''.pt''" "\<not> endswith path ''.ckpt''"
  shows "from_file torch_load resolve_config strict_ok model_name path =
           Inl (ValueError (''Unsupported file type: '' @ last (split path CHR ''.'')))"
  using assms by (simp add: from_file_def checkpoint_state_def)

text \<open>
  C9. A path that ends neither in \<open>.pt\<close> nor in \<open>.ckpt\<close> makes \<open>from_file\<close> raise a
  \<open>ValueError\<close>, whatever the file system, the registry and the strict check are: no
  model is built. The message ends with the text after the last dot of the path (the
  whole path when it has no dot).
\<close>

theorem C9_unsupported_extension:
  assumes "\<not> endswith path ''.pt''" "\<not> endswith path ''.ckpt''"
  shows "from_file torch_load resolve_config strict_ok model_name path =
           Inl (ValueError (''Unsupported file type: '' @ last (split path CHR ''.'')))
         \<and> CHR ''.'' \<notin> set (last (split path CHR ''.''))
         \<and> (path = last (split path CHR ''.'')
              \<or> (\<exists>stem. path = stem @ CHR ''.'' # last (split path CHR ''.'')))"
  using from_file_unsupported[OF assms] split_last[of "CHR ''.''" path] by blast

theorem C9_unsupported_extension_witness:
  "\<not> endswith ''weights/marlin.bin'' ''.pt'' \<and> \<not> endswith ''weights/marlin.bin'' ''.ckpt''
   \<and> from_file (single_file ''weights/marlin.bin'' (Dict [(''encoder.x'', Tensor (0::nat))]))
        registry (same_keys [''encoder.x'']) ''marlin_vit_base_ytf'' ''weights/marlin.bin''
      = Inl (ValueError ''Unsupported file type: bin'')"
proof -
  have a: "\<not> endswith ''weights/marlin.bin'' ''.pt''" by (simp add: endswith_def)
  have b: "\<not> endswith ''weights/marlin.bin'' ''.ckpt''" by (simp add: endswith_def)
  from C9_unsupported_extension[OF a b,
      of "single_file ''weights/marlin.bin'' (Dict [(''encoder.x'', Tensor (0::nat))])"
         registry "same_keys [''encoder.x'']" "''marlin_vit_base_ytf''"] a b
  show ?thesis by (simp add: Let_def)
qed

lemma del_item_Inr:
  "del_item d key = Inr d' \<Longrightarrow> d' = filter (\<lambda>kv. fst kv \<noteq> key) d"
  by (auto simp: del_item_def split: if_splits)

lemma del_keys_Inr:
  "del_keys keys d = Inr d' \<Longrightarrow> d' = filter (\<lambda>kv. fst kv \<notin> set keys) d"
proof (induction keys arbitrary: d)
  case Nil
  then show ?case by simp
next
  case (Cons key keys)
  from Cons.prems obtain d1 where d1: "del_item d key = Inr d1" and r: "del_keys keys d1 = Inr d'"
    by (auto split: sum.splits)
  have "d' = filter (\<lambda>kv. fst kv \<notin> set keys) d1" using Cons.IH[OF r] .
  also have "d1 = filter (\<lambda>kv. fst kv \<noteq> key) d" using del_item_Inr[OF d1] .
  finally show ?case by (simp add: conj_commute)
qed

lemma del_keys_distinct:
  "distinct keys \<Longrightarrow> set keys \<subseteq> fst ` set d \<Longrightarrow>
   del_keys keys d = Inr (filter (\<lambda>kv. fst kv \<notin> set keys) d)"
proof (induction keys arbitrary: d)
  case Nil
  then show ?case by simp
next
  case (Cons key keys)
  have k: "key \<in> fst ` set d" using Cons.prems by simp
  have sub: "set keys \<subseteq> fst ` set (filter (\<lambda>kv. fst kv \<noteq> key) d)"
    using Cons.prems by force
  have "del_keys keys (filter (\<lambda>kv. fst kv \<noteq> key) d) =
          Inr (filter (\<lambda>kv. fst kv \<notin> set keys) (filter (\<lambda>kv. fst kv \<noteq> key) d))"
    using Cons.IH[OF _ sub] Cons.prems by simp
  then show ?case using k by (simp add: del_item_def conj_commute)
qed

lemma checkpoint_state_ckpt:
  assumes "endswith path ''.ckpt''" "checkpoint_state torch_load path = Inr sd"
  shows "\<forall>k \<in> fst ` set sd. \<not> startswith k ''discriminator''"
proof -
  have npt: "\<not> endswith path ''.pt''"
  proof
    assume "endswith path ''.pt''"
    then obtain t where "path = t @ ''.pt''" by (auto simp: endswith_iff)
    moreover obtain u where "path = u @ ''.ckpt''" using assms(1) by (auto simp: endswith_iff)
    ultimately have "rev (t @ ''.pt'') = rev (u @ ''.ckpt'')" by simp
    then show False by simp
  qed
  from assms(2) npt assms(1) obtain d where
    d: "del_keys (filter (\<lambda>k. startswith k ''discriminator'') (map fst d)) d = Inr sd"
    by (auto simp: checkpoint_state_def Let_def split: sum.splits)
  show ?thesis using del_keys_Inr[OF d] by auto
qed

lemma checkpoint_state_pt:
  assumes "endswith path ''.pt''" "checkpoint_state torch_load path = Inr sd"
  shows "torch_load path = Inr (Dict sd)"
proof -
  from assms obtain obj where o: "torch_load path = Inr obj" "as_dict obj = Inr sd"
    by (auto simp: checkpoint_state_def split: sum.splits)
  then show ?thesis by (cases obj) auto
qed

lemma scan_keys_iff: "scan_keys keys \<longleftrightarrow> (\<forall>k \<in> set keys. \<not> startswith k ''decoder.'')"
  by (induction keys) auto

lemma Marlin_init_fields:
  "as_feature_extractor (Marlin_init a1 a2 a3 a4 a5 a6 a7 a8 a9 a10 a11 a12 a13 a14 a15 a16 a17 afe fd) = afe"
  "(decoder (Marlin_init a1 a2 a3 a4 a5 a6 a7 a8 a9 a10 a11 a12 a13 a14 a15 a16 a17 afe fd) = None) = afe"
  "(enc_dec_proj (Marlin_init a1 a2 a3 a4 a5 a6 a7 a8 a9 a10 a11 a12 a13 a14 a15 a16 a17 afe fd) = None) = afe"
  by (simp_all add: Marlin_init_def)

lemma load_state_dict_Inr:
  "load_state_dict strict_ok model sd = Inr m \<Longrightarrow> m = model\<lparr>parameters := Some sd\<rparr>"
  by (simp add: load_state_dict_def split: if_splits)

lemma from_file_Inr:
  assumes "from_file torch_load resolve_config strict_ok model_name path = Inr m"
  obtains sd where
    "checkpoint_state torch_load path = Inr sd" "parameters m = Some sd"
    "as_feature_extractor m = scan_keys (map fst sd)"
    "(decoder m = None) = scan_keys (map fst sd)"
    "(enc_dec_proj m = None) = scan_keys (map fst sd)"
proof (cases "checkpoint_state torch_load path")
  case (Inl e)
  then show ?thesis using assms by (simp add: from_file_def)
next
  case sd: (Inr sd)
  show ?thesis
  proof (cases "resolve_config model_name")
    case (Inl e)
    then show ?thesis using assms sd by (simp add: from_file_def)
  next
    case (Inr c)
    from assms sd Inr obtain model where
      model: "load_state_dict strict_ok model sd = Inr m"
      and afe: "as_feature_extractor model = scan_keys (map fst sd)"
      and dec: "(decoder model = None) = scan_keys (map fst sd)"
      and prj: "(enc_dec_proj model = None) = scan_keys (map fst sd)"
      by (simp add: from_file_def Marlin_init_fields)
    have m: "m = model\<lparr>parameters := Some sd\<rparr>" using load_state_dict_Inr[OF model] .
    show ?thesis
    proof (rule that[of sd])
      show "checkpoint_state torch_load path = Inr sd" by (rule sd)
      show "parameters m = Some sd" using m by simp
      show "as_feature_extractor m = scan_keys (map fst sd)" using m afe by simp
      show "(decoder m = None) = scan_keys (map fst sd)" using m dec by simp
      show "(enc_dec_proj m = None) = scan_keys (map fst sd)" using m prj by simp
    qed
  qed
qed

lemma lightning_ckpt_state: "checkpoint_state (single_file ''marlin.ckpt'' lightning_ckpt) ''marlin.ckpt''
   = Inr [(''encoder.x'', Tensor 1), (''decoder.z'', Tensor 3)]"
  by code_simp

lemma lightning_ckpt_loads: "case from_file (single_file ''marlin.ckpt'' lightning_ckpt) registry
          (same_keys [''encoder.x'', ''decoder.z'']) ''marlin_vit_base_ytf'' ''marlin.ckpt'' of Inl e \<Rightarrow> False | Inr m \<Rightarrow> True"
  by code_simp

text \<open>
  C5. When \<open>from_file\<close> returns a model, the model is full (not a feature extractor,
  with a decoder and a projection) exactly when some name of the state mapping it loaded
  starts with \<open>"decoder."\<close>; with no such name it is encoder-only.
\<close>

theorem C5_full_model_iff_decoder_key:
  assumes "from_file torch_load resolve_config strict_ok model_name path = Inr m"
  shows "\<exists>sd. checkpoint_state torch_load path = Inr sd \<and> parameters m = Some sd
           \<and> ((\<not> as_feature_extractor m \<and> decoder m \<noteq> None \<and> enc_dec_proj m \<noteq> None)
                \<longleftrightarrow> (\<exists>k \<in> fst ` set sd. startswith k ''decoder.''))
           \<and> ((\<forall>k \<in> fst ` set sd. \<not> startswith k ''decoder.'')
                \<longrightarrow> as_feature_extractor m \<and> decoder m = None \<and> enc_dec_proj m = None)"
proof -
  from assms obtain sd where
    sd: "checkpoint_state torch_load path = Inr sd" "parameters m = Some sd"
    and afe: "as_feature_extractor m = scan_keys (map fst sd)"
    and dec: "(decoder m = None) = scan_keys (map fst sd)"
    and prj: "(enc_dec_proj m = None) = scan_keys (map fst sd)"
    by (rule from_file_Inr)
  have sk: "scan_keys (map fst sd) \<longleftrightarrow> (\<forall>k \<in> fst ` set sd. \<not> startswith k ''decoder.'')"
    by (simp add: scan_keys_iff)
  have full: "(\<not> as_feature_extractor m \<and> decoder m \<noteq> None \<and> enc_dec_proj m \<noteq> None)
                \<longleftrightarrow> (\<exists>k \<in> fst ` set sd. startswith k ''decoder.'')"
    unfolding afe dec prj sk by simp
  have enc: "(\<forall>k \<in> fst ` set sd. \<not> startswith k ''decoder.'')
                \<longrightarrow> as_feature_extractor m \<and> decoder m = None \<and> enc_dec_proj m = None"
    unfolding afe dec prj sk by simp
  show ?thesis
    by (rule exI[of _ sd]) (intro conjI sd full enc)
qed

theorem C5_full_model_iff_decoder_key_witness:
  "\<exists>m. from_file (single_file ''marlin.ckpt'' lightning_ckpt) registry
          (same_keys [''encoder.x'', ''decoder.z'']) ''marlin_vit_base_ytf'' ''marlin.ckpt'' = Inr m
       \<and> parameters m = Some [(''encoder.x'', Tensor 1), (''decoder.z'', Tensor 3)]
       \<and> \<not> as_feature_extractor m \<and> decoder m \<noteq> None \<and> enc_dec_proj m \<noteq> None"
proof -
  obtain m where m: "from_file (single_file ''marlin.ckpt'' lightning_ckpt) registry
          (same_keys [''encoder.x'', ''decoder.z'']) ''marlin_vit_base_ytf'' ''marlin.ckpt'' = Inr m"
    using lightning_ckpt_loads by (auto split: sum.splits)
  from C5_full_model_iff_decoder_key[OF m] obtain sd where
    sd: "checkpoint_state (single_file ''marlin.ckpt'' lightning_ckpt) ''marlin.ckpt'' = Inr sd"
    and p: "parameters m = Some sd"
    and full: "(\<not> as_feature_extractor m \<and> decoder m \<noteq> None \<and> enc_dec_proj m \<noteq> None)
                \<longleftrightarrow> (\<exists>k \<in> fst ` set sd. startswith k ''decoder.'')"
    by (elim exE conjE)
  have e: "sd = [(''encoder.x'', Tensor 1), (''decoder.z'', Tensor 3)]" using sd lightning_ckpt_state by simp
  have "\<exists>k \<in> fst ` set sd. startswith k ''decoder.''" unfolding e by simp
  with full have "\<not> as_feature_extractor m \<and> decoder m \<noteq> None \<and> enc_dec_proj m \<noteq> None" by simp
  with m p e show ?thesis by simp
qed

text \<open>
  C6, as stated: no name of the state mapping starts with \<open>"discriminator"\<close>, for both
  layouts. The mapping read from a \<open>.pt\<close> file is handed on as it is.
\<close>

theorem C6_pt_keeps_discriminator:
  "checkpoint_state
     (single_file ''marlin.pt'' (Dict [(''encoder.x'', Tensor (1::nat)), (''discriminator.y'', Tensor 2)]))
     ''marlin.pt''
   = Inr [(''encoder.x'', Tensor 1), (''discriminator.y'', Tensor 2)]
   \<and> startswith ''discriminator.y'' ''discriminator''"
  by code_simp

text \<open>
  C6, amended: the state mapping of a loaded \<open>.ckpt\<close> file has no name that starts with
  \<open>"discriminator"\<close>; the state mapping of a loaded \<open>.pt\<close> file is the mapping in the file,
  unfiltered.
\<close>

theorem C6_ckpt_drops_discriminator:
  assumes "from_file torch_load resolve_config strict_ok model_name path = Inr m"
  shows "\<exists>sd. checkpoint_state torch_load path = Inr sd \<and> parameters m = Some sd
           \<and> (endswith path ''.ckpt'' \<longrightarrow> (\<forall>k \<in> fst ` set sd. \<not> startswith k ''discriminator''))
           \<and> (endswith path ''.pt'' \<longrightarrow> torch_load path = Inr (Dict sd))"
proof -
  from assms obtain sd where
    sd: "checkpoint_state torch_load path = Inr sd" "parameters m = Some sd"
    by (rule from_file_Inr)
  have a: "endswith path ''.ckpt'' \<longrightarrow> (\<forall>k \<in> fst ` set sd. \<not> startswith k ''discriminator'')"
    using checkpoint_state_ckpt[of path torch_load sd] sd(1) by simp
  have b: "endswith path ''.pt'' \<longrightarrow> torch_load path = Inr (Dict sd)"
    using checkpoint_state_pt[of path torch_load sd] sd(1) by simp
  show ?thesis
    by (rule exI[of _ sd]) (intro conjI sd a b)
qed

theorem C6_ckpt_drops_discriminator_witness:
  "\<exists>m. from_file (single_file ''marlin.ckpt'' lightning_ckpt) registry
          (same_keys [''encoder.x'', ''decoder.z'']) ''marlin_vit_base_ytf'' ''marlin.ckpt'' = Inr m
       \<and> endswith ''marlin.ckpt'' ''.ckpt''
       \<and> parameters m = Some [(''encoder.x'', Tensor 1), (''decoder.z'', Tensor 3)]"
proof -
  obtain m where m: "from_file (single_file ''marlin.ckpt'' lightning_ckpt) registry
          (same_keys [''encoder.x'', ''decoder.z'']) ''marlin_vit_base_ytf'' ''marlin.ckpt'' = Inr m"
    using lightning_ckpt_loads by (auto split: sum.splits)
  from C6_ckpt_drops_discriminator[OF m] obtain sd where
    sd: "checkpoint_state (single_file ''marlin.ckpt'' lightning_ckpt) ''marlin.ckpt'' = Inr sd"
    and p: "parameters m = Some sd"
    by (elim exE conjE)
  have e: "sd = [(''encoder.x'', Tensor 1), (''decoder.z'', Tensor 3)]" using sd lightning_ckpt_state by simp
  have "endswith ''marlin.ckpt'' ''.ckpt''" by (simp add: endswith_def)
  with m p e show ?thesis by simp
qed

section \<open>Feature aggregation\<close>

lemma extract_video_reduce:
  assumes "load_video cf sr st vf = (clips, None)"
    and "collect_features crop_face crop shape_ok extract_features keep_seq clips = Inr features"
  shows "extract_video rnd crop shape_ok extract_features cf vf
           crop_face sr st reduction keep_seq
         = reduce_features rnd reduction features"
  by (simp only: extract_video_def assms prod.case sum.case option.case)












end
